theory Spec2Isabelle
  imports Complex_Main
begin

section \<open>The Muskingum-Cunge routing demonstration notebook\<close>

text \<open>
  The source is one Jupyter notebook, \<^verbatim>\<open>notebooks/mc-wave-routing-demo.ipynb\<close>. Its
  code cells run top to bottom in one global namespace. The cells that matter here are
  the import cell of the Fortran extension module, the import of \<^verbatim>\<open>singlesegment\<close>,
  the two set-up cells (time and space domain, channel parameters) and the two
  experiment cells, each a \<^verbatim>\<open>for k in range(0, tsteps)\<close> loop around one call of
  \<^verbatim>\<open>singlesegment\<close>.

  The routing routine itself is compiled Fortran behind \<^verbatim>\<open>singlesegment\<close>; it is
  not part of the notebook, so it is a parameter of the model: a function from the
  fifteen keyword arguments to either an exception or the triple
  \<^verbatim>\<open>(qdc, velc, depthc)\<close>.

  Numbers: \<^verbatim>\<open>dt\<close>, \<^verbatim>\<open>tsteps\<close> and the loop index \<^verbatim>\<open>k\<close> are Python integers
  (unbounded, so \<^typ>\<open>int\<close>), and \<^verbatim>\<open>k * dt\<close> is integer arithmetic. Every other
  quantity is a flow, a length or a coefficient that the notebook only assigns, passes
  to the solver and appends to lists; it does no arithmetic on them. They are modelled
  as \<^typ>\<open>real\<close>, a decimal literal standing for itself (the integer literals in
  \<^verbatim>\<open>qlat = 0\<close> and \<^verbatim>\<open>qup = 1\<close> for the numbers 0 and 1).
\<close>

subsection \<open>Exceptions, the solver and its keyword arguments\<close>

text \<open>
  The exceptions the cells can meet, all of them subclasses of \<^verbatim>\<open>Exception\<close>. A
  \<^verbatim>\<open>NameError\<close> carries the unbound name, the others their message.
\<close>

datatype pyerr = NameError string | ImportError string | OtherError string

text \<open>The text of an exception, as \<^verbatim>\<open>f"{e}"\<close> formats it.\<close>

fun message :: "pyerr \<Rightarrow> string" where
  "message (NameError s) = ''name '' @ [CHR 0x27] @ s @ [CHR 0x27] @ '' is not defined''"
| "message (ImportError s) = s"
| "message (OtherError s) = s"

text \<open>
  The keyword arguments of \<^verbatim>\<open>singlesegment(dt=dt, qup=qup, ..., depthp=depthp)\<close>, in
  the order the call writes them.
\<close>

record call_args =
  arg_dt :: int
  arg_qup :: real
  arg_quc :: real
  arg_qdp :: real
  arg_qlat :: real
  arg_dx :: real
  arg_bw :: real
  arg_tw :: real
  arg_twcc :: real
  arg_n_manning :: real
  arg_n_manning_cc :: real
  arg_cs :: real
  arg_s0 :: real
  arg_velp :: real
  arg_depthp :: real

type_synonym triple = "real \<times> real \<times> real"

type_synonym solver = "call_args \<Rightarrow> pyerr + triple"

subsection \<open>The notebook's global namespace\<close>

text \<open>
  One field per global variable the cells below read or write. The set-up variables
  (\<open>dt\<close> to \<open>s0\<close>) are bound by the two set-up cells; a user who tries another
  configuration edits those cells, so the experiment cells are modelled on any values
  of these fields. \<open>singlesegment\<close> is \<open>None\<close> while the name is unbound.
  \<open>muskingcunge_module\<close> says whether that name is bound. \<open>stdout\<close> collects what
  \<^verbatim>\<open>print\<close> wrote.
\<close>

record nb =
  dt :: int
  tsteps :: int
  dx :: real
  bw :: real
  tw :: real
  twcc :: real
  cs :: real
  n_manning :: real
  n_manning_cc :: real
  s0 :: real
  qlat :: real
  qup :: real
  quc :: real
  qdp :: real
  depthp :: real
  velp :: real
  q_result :: "real list"
  t_result :: "int list"
  qus :: "real list"
  k :: int
  qdc :: real
  velc :: real
  depthc :: real
  singlesegment :: "solver option"
  muskingcunge_module :: bool
  stdout :: "string list"

text \<open>
  What running a cell gives: the exception that stopped it (\<open>None\<close> when it ran to its
  end), the namespace it left (a notebook keeps the namespace of a cell that raised),
  and the list of keyword-argument records with which it called the solver, in order.
\<close>

record run =
  raised :: "pyerr option"
  ns :: nb
  calls :: "call_args list"

subsection \<open>The set-up cells\<close>

text \<open>\<^verbatim>\<open>dt = 600; tsteps = 60; dx = 2000.0\<close>\<close>

definition domain_cell :: "nb \<Rightarrow> nb" where
  "domain_cell e = e\<lparr>dt := 600, tsteps := 60, dx := 2000\<rparr>"

text \<open>
  \<^verbatim>\<open>bw = 112.0; tw = 448.0; twcc = 623.0; cs = 1.40; n_manning = 0.028;
  n_manning_cc = 0.031; s0 = 0.0018\<close>
\<close>

definition channel_cell :: "nb \<Rightarrow> nb" where
  "channel_cell e =
     e\<lparr>bw := 112, tw := 448, twcc := 623, cs := 1.40,
       n_manning := 0.028, n_manning_cc := 0.031, s0 := 0.0018\<rparr>"

subsection \<open>The timestep loops\<close>

text \<open>\<^verbatim>\<open>range(0, tsteps)\<close>: empty when \<open>tsteps \<le> 0\<close>.\<close>

definition range0 :: "int \<Rightarrow> int list" where
  "range0 n = map int [0..<nat n]"

text \<open>
  A \<^verbatim>\<open>for\<close> loop over a list of indices: the body runs once per index, in order, and
  an exception in the body ends the loop.
\<close>

fun for_loop :: "(int \<Rightarrow> run \<Rightarrow> run) \<Rightarrow> int list \<Rightarrow> run \<Rightarrow> run" where
  "for_loop body [] r = r"
| "for_loop body (i # js) r =
     (let r' = body i r in if raised r' = None then for_loop body js r' else r')"

text \<open>The argument list both experiment cells write in their call.\<close>

definition keyword_args :: "nb \<Rightarrow> call_args" where
  "keyword_args e =
     \<lparr>arg_dt = dt e, arg_qup = qup e, arg_quc = quc e, arg_qdp = qdp e,
      arg_qlat = qlat e, arg_dx = dx e, arg_bw = bw e, arg_tw = tw e,
      arg_twcc = twcc e, arg_n_manning = n_manning e,
      arg_n_manning_cc = n_manning_cc e, arg_cs = cs e, arg_s0 = s0 e,
      arg_velp = velp e, arg_depthp = depthp e\<rparr>"

text \<open>
  Experiment 1, the statements before the loop:
  \<^verbatim>\<open>qlat = 0; qup = 0.41; quc = 0.41; qdp = 0.21; depthp = 0.010; velp = 0.070;
  q_result = []; t_result = []\<close>
\<close>

definition exp1_init :: "nb \<Rightarrow> nb" where
  "exp1_init e =
     e\<lparr>qlat := 0, qup := 0.41, quc := 0.41, qdp := 0.21, depthp := 0.010,
       velp := 0.070, q_result := [], t_result := []\<rparr>"

text \<open>
  Experiment 1, one pass of the loop body with \<open>k = i\<close>. Evaluating the call looks the
  name \<^verbatim>\<open>singlesegment\<close> up first (\<^verbatim>\<open>NameError\<close> when it is unbound, and then no
  call is made); an exception of the solver leaves the body before the assignment to
  \<^verbatim>\<open>qdc, velc, depthc\<close>.
\<close>

definition exp1_body :: "int \<Rightarrow> run \<Rightarrow> run" where
  "exp1_body i r =
     (let e = (ns r)\<lparr>k := i\<rparr> in
      case singlesegment e of
        None \<Rightarrow> r\<lparr>raised := Some (NameError ''singlesegment''), ns := e\<rparr>
      | Some f \<Rightarrow>
          (case f (keyword_args e) of
             Inl err \<Rightarrow>
               \<lparr>raised = Some err, ns = e, calls = calls r @ [keyword_args e]\<rparr>
           | Inr (a, b, c) \<Rightarrow>
               (let e1 = e\<lparr>qdc := a, velc := b, depthc := c\<rparr>;
                    e2 = e1\<lparr>q_result := q_result e1 @ [qdc e1]\<rparr>;
                    e3 = e2\<lparr>t_result := t_result e2 @ [k e2 * dt e2]\<rparr>;
                    e4 = e3\<lparr>qdp := qdc e3\<rparr>;
                    e5 = e4\<lparr>depthp := depthc e4\<rparr>;
                    e6 = e5\<lparr>velp := velc e5\<rparr>
                in \<lparr>raised = None, ns = e6, calls = calls r @ [keyword_args e]\<rparr>)))"

text \<open>
  The experiment 1 cell up to the end of its loop. The plotting statements after the
  loop are not modelled.
\<close>

definition experiment1 :: "nb \<Rightarrow> run" where
  "experiment1 e =
     (let e0 = exp1_init e
      in for_loop exp1_body (range0 (tsteps e0)) \<lparr>raised = None, ns = e0, calls = []\<rparr>)"

text \<open>
  Experiment 2, the statements before the loop:
  \<^verbatim>\<open>qlat = 0; qup = 0.21; quc = 0.21; qdp = 0.21; depthp = 0.010; velp = 0.070;
  qus = []; q_result = []; t_result = []\<close>
\<close>

definition exp2_init :: "nb \<Rightarrow> nb" where
  "exp2_init e =
     e\<lparr>qlat := 0, qup := 0.21, quc := 0.21, qdp := 0.21, depthp := 0.010,
       velp := 0.070, qus := [], q_result := [], t_result := []\<rparr>"

text \<open>
  The pulse: an \<^verbatim>\<open>if\<close> on its own, then a second \<^verbatim>\<open>if\<close> with the \<^verbatim>\<open>else\<close>:
  \<^verbatim>\<open>
  if k <= 5:
      qup = 0.21; quc = 0.21
  if 5 < k < 10:
      qup = 1; quc = 1
  else:
      qup = 0.21; quc = 0.21
  \<close>
\<close>

definition pulse :: "nb \<Rightarrow> nb" where
  "pulse e =
     (let e1 = (if k e \<le> 5 then e\<lparr>qup := 0.21, quc := 0.21\<rparr> else e)
      in if 5 < k e1 \<and> k e1 < 10 then e1\<lparr>qup := 1, quc := 1\<rparr>
         else e1\<lparr>qup := 0.21, quc := 0.21\<rparr>)"

text \<open>Experiment 2, one pass of the loop body with \<open>k = i\<close>.\<close>

definition exp2_body :: "int \<Rightarrow> run \<Rightarrow> run" where
  "exp2_body i r =
     (let e = pulse ((ns r)\<lparr>k := i\<rparr>) in
      case singlesegment e of
        None \<Rightarrow> r\<lparr>raised := Some (NameError ''singlesegment''), ns := e\<rparr>
      | Some f \<Rightarrow>
          (case f (keyword_args e) of
             Inl err \<Rightarrow>
               \<lparr>raised = Some err, ns = e, calls = calls r @ [keyword_args e]\<rparr>
           | Inr (a, b, c) \<Rightarrow>
               (let e1 = e\<lparr>qdc := a, velc := b, depthc := c\<rparr>;
                    e2 = e1\<lparr>q_result := q_result e1 @ [qdc e1]\<rparr>;
                    e3 = e2\<lparr>t_result := t_result e2 @ [k e2 * dt e2]\<rparr>;
                    e4 = e3\<lparr>qus := qus e3 @ [quc e3]\<rparr>;
                    e5 = e4\<lparr>qdp := qdc e4\<rparr>;
                    e6 = e5\<lparr>depthp := depthc e5\<rparr>;
                    e7 = e6\<lparr>velp := velc e6\<rparr>
                in \<lparr>raised = None, ns = e7, calls = calls r @ [keyword_args e]\<rparr>)))"

definition experiment2 :: "nb \<Rightarrow> run" where
  "experiment2 e =
     (let e0 = exp2_init e
      in for_loop exp2_body (range0 (tsteps e0)) \<lparr>raised = None, ns = e0, calls = []\<rparr>)"

subsection \<open>The import cells\<close>

text \<open>
  What the imports do depends on the machine, not on the notebook, so their outcomes are
  inputs: \<open>import_prebuilt\<close> is the outcome of the first
  \<^verbatim>\<open>from mc_sseg_stime import muskingcunge_module\<close> (\<open>None\<close>: it succeeded),
  \<open>run_f2py\<close> that of \<^verbatim>\<open>subprocess.run(f2py_call, ...)\<close> (it raises when the
  program cannot be started; its exit status is not looked at), \<open>import_compiled\<close>
  that of the second import, and \<open>import_demo\<close> that of
  \<^verbatim>\<open>from mc_sseg_stime_NOLOOP_demo import singlesegment\<close>.
\<close>

record platform =
  import_prebuilt :: "pyerr option"
  run_f2py :: "pyerr option"
  import_compiled :: "pyerr option"
  import_demo :: "pyerr + solver"

definition print_line :: "string \<Rightarrow> nb \<Rightarrow> nb" where
  "print_line s e = e\<lparr>stdout := stdout e @ [s]\<rparr>"

text \<open>
  The cell that imports or compiles the extension module:
  \<^verbatim>\<open>
  try:
      print(r"importing fortran module...")
      from mc_sseg_stime import muskingcunge_module
      print(r"... success!")
  except:
      print("we will attempt to compile the muskingcunge_module in the background... wish us luck!")
      try:
          import subprocess
          import traceback
          ...
          subprocess.run(f2py_call, cwd=fortran_source_dir, stdout=subprocess.DEVNULL, stderr=subprocess.DEVNULL)
          from mc_sseg_stime import muskingcunge_module
          print(r"...success!")
      except Exception as e:
          print(f"Exception: {e}")
          traceback.print_exc()
  \<close>
  Both handlers end without raising again. The traceback goes to the error stream,
  which is not modelled.
\<close>

definition import_cell :: "platform \<Rightarrow> nb \<Rightarrow> run" where
  "import_cell p e =
     (let e1 = print_line ''importing fortran module...'' e in
      case import_prebuilt p of
        None \<Rightarrow>
          \<lparr>raised = None,
           ns = print_line ''... success!'' (e1\<lparr>muskingcunge_module := True\<rparr>),
           calls = []\<rparr>
      | Some _ \<Rightarrow>
          (let e2 = print_line
                 ''we will attempt to compile the muskingcunge_module in the background... wish us luck!''
                 e1 in
           case run_f2py p of
             Some err \<Rightarrow>
               \<lparr>raised = None, ns = print_line (''Exception: '' @ message err) e2, calls = []\<rparr>
           | None \<Rightarrow>
               (case import_compiled p of
                  Some err \<Rightarrow>
                    \<lparr>raised = None, ns = print_line (''Exception: '' @ message err) e2,
                     calls = []\<rparr>
                | None \<Rightarrow>
                    \<lparr>raised = None,
                     ns = print_line ''...success!'' (e2\<lparr>muskingcunge_module := True\<rparr>),
                     calls = []\<rparr>)))"


subsection \<open>Observations used in the properties\<close>

text \<open>The geometry, roughness, slope and timestep parameters, as one value.\<close>

definition parameters ::
  "nb \<Rightarrow> int \<times> real \<times> real \<times> real \<times> real \<times> real \<times> real \<times> real \<times> real" where
  "parameters e =
     (dt e, dx e, bw e, tw e, twcc e, cs e, n_manning e, n_manning_cc e, s0 e)"

definition arg_parameters ::
  "call_args \<Rightarrow> int \<times> real \<times> real \<times> real \<times> real \<times> real \<times> real \<times> real \<times> real" where
  "arg_parameters a =
     (arg_dt a, arg_dx a, arg_bw a, arg_tw a, arg_twcc a, arg_cs a, arg_n_manning a,
      arg_n_manning_cc a, arg_s0 a)"

text \<open>
  The previous-step state of the segment, in the order in which the solver returns the
  current one: flow, velocity, depth.
\<close>

definition state :: "nb \<Rightarrow> triple" where
  "state e = (qdp e, velp e, depthp e)"

definition arg_state :: "call_args \<Rightarrow> triple" where
  "arg_state a = (arg_qdp a, arg_velp a, arg_depthp a)"

text \<open>
  A list of calls is threaded when each call but the last returned exactly the
  previous-step state the next call was given.
\<close>

definition threaded :: "solver \<Rightarrow> call_args list \<Rightarrow> bool" where
  "threaded f as \<longleftrightarrow>
     (\<forall>i. Suc i < length as \<longrightarrow> f (as ! i) = Inr (arg_state (as ! Suc i)))"

text \<open>
  What a run of an experiment cell hands to its reader: how it ended, the calls it made
  and the two result lists. Experiment 2 also fills \<open>qus\<close>.
\<close>

definition outputs :: "run \<Rightarrow> pyerr option \<times> call_args list \<times> real list \<times> int list" where
  "outputs r = (raised r, calls r, q_result (ns r), t_result (ns r))"

text \<open>
  Two namespaces agree when they hold the same values in the variables the loop of
  experiment 1 reads: the parameters, the solver, the boundary flows, the
  previous-step state and the result lists.
\<close>

definition agree :: "nb \<Rightarrow> nb \<Rightarrow> bool" where
  "agree e1 e2 \<longleftrightarrow>
     parameters e1 = parameters e2 \<and> singlesegment e1 = singlesegment e2 \<and>
     qlat e1 = qlat e2 \<and> qup e1 = qup e2 \<and> quc e1 = quc e2 \<and> state e1 = state e2 \<and>
     q_result e1 = q_result e2 \<and> t_result e1 = t_result e2"

text \<open>The experiment cells stopped after the first \<open>j\<close> indices of the loop.\<close>

definition exp1_prefix :: "nb \<Rightarrow> nat \<Rightarrow> run" where
  "exp1_prefix e j =
     for_loop exp1_body (map int [0..<j]) \<lparr>raised = None, ns = exp1_init e, calls = []\<rparr>"

definition exp2_prefix :: "nb \<Rightarrow> nat \<Rightarrow> run" where
  "exp2_prefix e j =
     for_loop exp2_body (map int [0..<j]) \<lparr>raised = None, ns = exp2_init e, calls = []\<rparr>"

subsection \<open>Concrete namespaces for the examples\<close>

text \<open>A namespace in which no cell has run yet; the numbers are placeholders.\<close>

definition fresh :: nb where
  "fresh =
     \<lparr>dt = 0, tsteps = 0, dx = 0, bw = 0, tw = 0, twcc = 0, cs = 0, n_manning = 0,
      n_manning_cc = 0, s0 = 0, qlat = 0, qup = 0, quc = 0, qdp = 0, depthp = 0, velp = 0,
      q_result = [], t_result = [], qus = [], k = 0, qdc = 0, velc = 0, depthc = 0,
      singlesegment = None, muskingcunge_module = False, stdout = []\<rparr>"

text \<open>
  A stand-in for the routing routine: the new flow is halfway between the previous
  downstream flow and the current upstream flow. It never raises.
\<close>

definition half_solver :: solver where
  "half_solver a = Inr ((arg_qdp a + arg_quc a) / 2, arg_velp a + 1, arg_depthp a + 2)"


text \<open>The namespace after the set-up cells as the notebook has them.\<close>

definition demo :: nb where
  "demo = channel_cell (domain_cell (fresh\<lparr>singlesegment := Some half_solver\<rparr>))"

text \<open>The same with three timesteps, short enough to run by hand.\<close>

definition demo3 :: nb where
  "demo3 = demo\<lparr>tsteps := 3\<rparr>"

text \<open>
  The three-step namespace with leftovers of an earlier run in the variables the
  loops use.
\<close>

definition demo_stale :: nb where
  "demo_stale =
     demo3\<lparr>qlat := 5, qup := 7, quc := 8, qdp := 9, depthp := 3, velp := 4,
          q_result := [1, 2, 3], t_result := [10, 20], qus := [6], k := 59\<rparr>"

text \<open>
  A configuration the data model excludes: floodplain narrower than the bankfull
  channel, negative timestep, zero segment length.
\<close>

definition invalid_demo :: nb where
  "invalid_demo = demo\<lparr>dt := - 600, tsteps := 2, dx := 0, twcc := 100\<rparr>"


section \<open>The loops, pass by pass\<close>

subsection \<open>Experiment 1\<close>

lemma for_loop_append:
  "raised r = None \<Longrightarrow>
   for_loop body (xs @ ys) r =
     (let r' = for_loop body xs r in if raised r' = None then for_loop body ys r' else r')"
proof (induction xs arbitrary: r)
  case Nil
  then show ?case by simp
next
  case (Cons i js)
  show ?case
  proof (cases "raised (body i r)")
    case None
    with Cons.IH [of "body i r"] show ?thesis by (simp add: Let_def)
  next
    case (Some err)
    then show ?thesis by (simp add: Let_def)
  qed
qed

lemma exp1_prefix_0: "exp1_prefix e 0 = \<lparr>raised = None, ns = exp1_init e, calls = []\<rparr>"
  by (simp add: exp1_prefix_def)

lemma exp1_prefix_Suc:
  "exp1_prefix e (Suc j) =
     (if raised (exp1_prefix e j) = None then exp1_body (int j) (exp1_prefix e j)
      else exp1_prefix e j)"
  by (simp add: exp1_prefix_def for_loop_append Let_def)

lemma experiment1_prefix: "experiment1 e = exp1_prefix e (nat (tsteps e))"
  by (simp add: experiment1_def exp1_prefix_def range0_def exp1_init_def)

text \<open>The three ways a pass of the body ends.\<close>

lemma keyword_args_k [simp]: "keyword_args (e\<lparr>k := i\<rparr>) = keyword_args e"
  by (simp add: keyword_args_def)

lemma exp1_body_unbound:
  "singlesegment (ns r) = None \<Longrightarrow>
   exp1_body i r = r\<lparr>raised := Some (NameError ''singlesegment''), ns := (ns r)\<lparr>k := i\<rparr>\<rparr>"
  by (simp add: exp1_body_def)

lemma exp1_body_raise:
  "singlesegment (ns r) = Some f \<Longrightarrow> f (keyword_args (ns r)) = Inl err \<Longrightarrow>
   exp1_body i r =
     \<lparr>raised = Some err, ns = (ns r)\<lparr>k := i\<rparr>, calls = calls r @ [keyword_args (ns r)]\<rparr>"
  by (simp add: exp1_body_def)

lemma exp1_body_return:
  "singlesegment (ns r) = Some f \<Longrightarrow> f (keyword_args (ns r)) = Inr (a, b, c) \<Longrightarrow>
   exp1_body i r =
     \<lparr>raised = None,
      ns = (ns r)\<lparr>k := i, qdc := a, velc := b, depthc := c,
                 q_result := q_result (ns r) @ [a],
                 t_result := t_result (ns r) @ [i * dt (ns r)],
                 qdp := a, depthp := c, velp := b\<rparr>,
      calls = calls r @ [keyword_args (ns r)]\<rparr>"
  by (simp add: exp1_body_def)

lemma exp1_body_cases:
  obtains
    (unbound) "singlesegment (ns r) = None"
      "exp1_body i r = r\<lparr>raised := Some (NameError ''singlesegment''), ns := (ns r)\<lparr>k := i\<rparr>\<rparr>"
  | (raise) f err where "singlesegment (ns r) = Some f" "f (keyword_args (ns r)) = Inl err"
      "exp1_body i r =
        \<lparr>raised = Some err, ns = (ns r)\<lparr>k := i\<rparr>, calls = calls r @ [keyword_args (ns r)]\<rparr>"
  | (return) f a b c where "singlesegment (ns r) = Some f"
      "f (keyword_args (ns r)) = Inr (a, b, c)"
      "exp1_body i r =
        \<lparr>raised = None,
         ns = (ns r)\<lparr>k := i, qdc := a, velc := b, depthc := c,
                 q_result := q_result (ns r) @ [a],
                 t_result := t_result (ns r) @ [i * dt (ns r)],
                 qdp := a, depthp := c, velp := b\<rparr>,
         calls = calls r @ [keyword_args (ns r)]\<rparr>"
proof (cases "singlesegment (ns r)")
  case None
  then show ?thesis using unbound exp1_body_unbound by blast
next
  case (Some f)
  show ?thesis
  proof (cases "f (keyword_args (ns r))")
    case (Inl err)
    with Some show ?thesis using raise exp1_body_raise by blast
  next
    case (Inr t)
    obtain a b c where "t = (a, b, c)" by (cases t) auto
    with Some Inr show ?thesis using return exp1_body_return by blast
  qed
qed

lemma exp1_body_frame:
  "parameters (ns (exp1_body i r)) = parameters (ns r) \<and>
   tsteps (ns (exp1_body i r)) = tsteps (ns r) \<and>
   singlesegment (ns (exp1_body i r)) = singlesegment (ns r) \<and>
   qlat (ns (exp1_body i r)) = qlat (ns r) \<and>
   qup (ns (exp1_body i r)) = qup (ns r) \<and>
   quc (ns (exp1_body i r)) = quc (ns r)"
  by (rule exp1_body_cases [of r i]) (simp_all add: parameters_def)

lemma exp1_prefix_frame:
  "parameters (ns (exp1_prefix e j)) = parameters e \<and>
   tsteps (ns (exp1_prefix e j)) = tsteps e \<and>
   singlesegment (ns (exp1_prefix e j)) = singlesegment e \<and>
   qlat (ns (exp1_prefix e j)) = 0 \<and>
   qup (ns (exp1_prefix e j)) = 0.41 \<and>
   quc (ns (exp1_prefix e j)) = 0.41"
proof (induction j)
  case 0
  show ?case by (simp add: exp1_prefix_0 exp1_init_def parameters_def)
next
  case (Suc j)
  then show ?case by (simp add: exp1_prefix_Suc exp1_body_frame)
qed

lemma exp1_prefix_raised_Suc:
  "raised (exp1_prefix e (Suc j)) = None \<Longrightarrow> raised (exp1_prefix e j) = None"
  by (simp add: exp1_prefix_Suc split: if_splits)

lemma keyword_args_parameters:
  "arg_parameters (keyword_args e) = parameters e \<and> arg_state (keyword_args e) = state e \<and>
   arg_qlat (keyword_args e) = qlat e \<and> arg_qup (keyword_args e) = qup e \<and>
   arg_quc (keyword_args e) = quc e"
  by (simp add: keyword_args_def arg_parameters_def parameters_def arg_state_def state_def)

lemma exp1_body_calls:
  "set (calls (exp1_body i r)) \<subseteq> insert (keyword_args (ns r)) (set (calls r))"
  by (rule exp1_body_cases [of r i]) auto

lemma exp1_prefix_calls:
  "a \<in> set (calls (exp1_prefix e j)) \<Longrightarrow>
   arg_parameters a = parameters e \<and> arg_qlat a = 0 \<and> arg_qup a = 0.41 \<and> arg_quc a = 0.41"
proof (induction j)
  case 0
  then show ?case by (simp add: exp1_prefix_0)
next
  case (Suc j)
  show ?case
  proof (cases "raised (exp1_prefix e j) = None")
    case True
    with Suc.prems have "a \<in> set (calls (exp1_body (int j) (exp1_prefix e j)))"
      by (simp add: exp1_prefix_Suc)
    with exp1_body_calls [of "int j" "exp1_prefix e j"]
    have "a = keyword_args (ns (exp1_prefix e j)) \<or> a \<in> set (calls (exp1_prefix e j))"
      by auto
    then show ?thesis
      using Suc.IH exp1_prefix_frame [of e j] by (auto simp: keyword_args_parameters)
  next
    case False
    with Suc show ?thesis by (auto simp: exp1_prefix_Suc)
  qed
qed

lemma exp1_prefix_lengths:
  "length (t_result (ns (exp1_prefix e j))) = length (q_result (ns (exp1_prefix e j))) \<and>
   (raised (exp1_prefix e j) = None \<longrightarrow>
      length (calls (exp1_prefix e j)) = j \<and> length (q_result (ns (exp1_prefix e j))) = j) \<and>
   (raised (exp1_prefix e j) \<noteq> None \<longrightarrow>
      length (q_result (ns (exp1_prefix e j))) < j \<and>
      length (q_result (ns (exp1_prefix e j))) \<le> length (calls (exp1_prefix e j)) \<and>
      length (calls (exp1_prefix e j)) \<le> Suc (length (q_result (ns (exp1_prefix e j)))))"
proof (induction j)
  case 0
  show ?case by (simp add: exp1_prefix_0 exp1_init_def)
next
  case (Suc j)
  show ?case
  proof (cases "raised (exp1_prefix e j) = None")
    case True
    with Suc show ?thesis
      by (rule_tac exp1_body_cases [of "exp1_prefix e j" "int j"])
         (simp_all add: exp1_prefix_Suc)
  next
    case False
    with Suc show ?thesis by (auto simp: exp1_prefix_Suc)
  qed
qed

lemma exp1_prefix_times:
  "i < length (t_result (ns (exp1_prefix e j))) \<Longrightarrow>
   t_result (ns (exp1_prefix e j)) ! i = int i * dt e"
proof (induction j)
  case 0
  then show ?case by (simp add: exp1_prefix_0 exp1_init_def)
next
  case (Suc j)
  show ?case
  proof (cases "raised (exp1_prefix e j) = None")
    case True
    have len: "length (t_result (ns (exp1_prefix e j))) = j"
      using exp1_prefix_lengths [of e j] True by simp
    have d: "dt (ns (exp1_prefix e j)) = dt e"
      using exp1_prefix_frame [of e j] by (simp add: parameters_def)
    show ?thesis
      using Suc len d True
      by (rule_tac exp1_body_cases [of "exp1_prefix e j" "int j"])
         (auto simp: exp1_prefix_Suc nth_append)
  next
    case False
    with Suc show ?thesis by (auto simp: exp1_prefix_Suc)
  qed
qed

lemma exp1_prefix_flows:
  assumes "singlesegment e = Some f" "i < length (q_result (ns (exp1_prefix e j)))"
  shows "\<exists>v d. f (calls (exp1_prefix e j) ! i) = Inr (q_result (ns (exp1_prefix e j)) ! i, v, d)"
  using assms(2)
proof (induction j)
  case 0
  then show ?case by (simp add: exp1_prefix_0 exp1_init_def)
next
  case (Suc j)
  show ?case
  proof (cases "raised (exp1_prefix e j) = None")
    case True
    have len: "length (q_result (ns (exp1_prefix e j))) = j" "length (calls (exp1_prefix e j)) = j"
      using exp1_prefix_lengths [of e j] True by simp_all
    have f: "singlesegment (ns (exp1_prefix e j)) = Some f"
      using exp1_prefix_frame [of e j] assms(1) by simp
    show ?thesis
      using Suc len f True
      by (rule_tac exp1_body_cases [of "exp1_prefix e j" "int j"])
         (auto simp: exp1_prefix_Suc nth_append)
  next
    case False
    with Suc show ?thesis by (auto simp: exp1_prefix_Suc)
  qed
qed

lemma threaded_Nil: "threaded f []"
  by (simp add: threaded_def)

lemma threaded_snoc:
  assumes "threaded f as" "as \<noteq> [] \<Longrightarrow> f (last as) = Inr (arg_state a)"
  shows "threaded f (as @ [a])"
  unfolding threaded_def
proof (intro allI impI)
  fix i
  assume i: "Suc i < length (as @ [a])"
  show "f ((as @ [a]) ! i) = Inr (arg_state ((as @ [a]) ! Suc i))"
  proof (cases "Suc i < length as")
    case True
    with assms(1) show ?thesis by (simp add: threaded_def nth_append)
  next
    case False
    with i have eq: "Suc i = length as" by simp
    then have "as \<noteq> []" by auto
    with assms(2) eq [symmetric] show ?thesis
      by (simp add: nth_append last_conv_nth)
  qed
qed

lemma exp1_prefix_threaded:
  assumes "singlesegment e = Some f"
  shows "threaded f (calls (exp1_prefix e j)) \<and>
         (calls (exp1_prefix e j) \<noteq> [] \<longrightarrow>
            arg_state (hd (calls (exp1_prefix e j))) = (0.21, 0.070, 0.010)) \<and>
         (raised (exp1_prefix e j) = None \<longrightarrow>
            (if calls (exp1_prefix e j) = []
             then state (ns (exp1_prefix e j)) = (0.21, 0.070, 0.010)
             else f (last (calls (exp1_prefix e j))) = Inr (state (ns (exp1_prefix e j)))))"
proof (induction j)
  case 0
  show ?case by (simp add: exp1_prefix_0 exp1_init_def threaded_Nil state_def)
next
  case (Suc j)
  show ?case
  proof (cases "raised (exp1_prefix e j) = None")
    case True
    let ?r = "exp1_prefix e j"
    have f: "singlesegment (ns ?r) = Some f"
      using exp1_prefix_frame [of e j] assms by simp
    have th: "threaded f (calls ?r @ [keyword_args (ns ?r)])"
      using Suc True by (intro threaded_snoc) (auto simp: keyword_args_parameters)
    have hd: "arg_state (hd (calls ?r @ [keyword_args (ns ?r)])) = (0.21, 0.070, 0.010)"
      using Suc True by (cases "calls ?r") (auto simp: keyword_args_parameters)
    show ?thesis
      using th hd f True
      by (rule_tac exp1_body_cases [of ?r "int j"])
         (auto simp: exp1_prefix_Suc state_def)
  next
    case False
    with Suc show ?thesis by (auto simp: exp1_prefix_Suc)
  qed
qed

lemma exp1_prefix_unbound:
  assumes "singlesegment e = None"
  shows "calls (exp1_prefix e j) = [] \<and> q_result (ns (exp1_prefix e j)) = [] \<and>
         t_result (ns (exp1_prefix e j)) = [] \<and>
         (0 < j \<longrightarrow> raised (exp1_prefix e j) = Some (NameError ''singlesegment''))"
proof (induction j)
  case 0
  show ?case by (simp add: exp1_prefix_0 exp1_init_def)
next
  case (Suc j)
  have "singlesegment (ns (exp1_prefix e j)) = None"
    using exp1_prefix_frame [of e j] assms by simp
  with Suc show ?case
    by (auto simp: exp1_prefix_Suc exp1_prefix_0 exp1_body_unbound)
qed

lemma exp1_prefix_total:
  assumes "singlesegment e = Some f" "\<And>a. \<exists>t. f a = Inr t"
  shows "raised (exp1_prefix e j) = None"
proof (induction j)
  case 0
  show ?case by (simp add: exp1_prefix_0)
next
  case (Suc j)
  let ?r = "exp1_prefix e j"
  have f: "singlesegment (ns ?r) = Some f"
    using exp1_prefix_frame [of e j] assms(1) by simp
  obtain t where "f (keyword_args (ns ?r)) = Inr t"
    using assms(2) by blast
  with f Suc show ?case
    by (rule_tac exp1_body_cases [of ?r "int j"]) (auto simp: exp1_prefix_Suc)
qed

lemma exp1_prefix_raised:
  assumes "raised (exp1_prefix e j) = Some err"
  shows "(singlesegment e = None \<and> err = NameError ''singlesegment'' \<and>
            calls (exp1_prefix e j) = []) \<or>
         (\<exists>f. singlesegment e = Some f \<and> calls (exp1_prefix e j) \<noteq> [] \<and>
              f (last (calls (exp1_prefix e j))) = Inl err \<and>
              length (calls (exp1_prefix e j)) = Suc (length (q_result (ns (exp1_prefix e j)))))"
  using assms
proof (induction j)
  case 0
  then show ?case by (simp add: exp1_prefix_0)
next
  case (Suc j)
  show ?case
  proof (cases "raised (exp1_prefix e j) = None")
    case True
    let ?r = "exp1_prefix e j"
    have len: "length (q_result (ns ?r)) = j" "length (calls ?r) = j"
      using exp1_prefix_lengths [of e j] True by simp_all
    have f: "singlesegment e = singlesegment (ns ?r)"
      using exp1_prefix_frame [of e j] by simp
    have c: "singlesegment (ns ?r) = None \<Longrightarrow> calls ?r = []"
      using exp1_prefix_unbound [of e j] f by simp
    show ?thesis
      using Suc.prems len c True
      by (rule_tac exp1_body_cases [of ?r "int j"])
         (auto simp: exp1_prefix_Suc f)
  next
    case False
    with Suc show ?thesis by (auto simp: exp1_prefix_Suc)
  qed
qed

subsection \<open>Experiment 2\<close>

lemma pulse_frame [simp]:
  "dt (pulse e) = dt e" "tsteps (pulse e) = tsteps e" "dx (pulse e) = dx e"
  "bw (pulse e) = bw e" "tw (pulse e) = tw e" "twcc (pulse e) = twcc e"
  "cs (pulse e) = cs e" "n_manning (pulse e) = n_manning e"
  "n_manning_cc (pulse e) = n_manning_cc e" "s0 (pulse e) = s0 e"
  "qlat (pulse e) = qlat e" "qdp (pulse e) = qdp e" "depthp (pulse e) = depthp e"
  "velp (pulse e) = velp e" "q_result (pulse e) = q_result e"
  "t_result (pulse e) = t_result e" "qus (pulse e) = qus e" "k (pulse e) = k e"
  "singlesegment (pulse e) = singlesegment e"
  by (simp_all add: pulse_def Let_def)

lemma pulse_flow:
  "qup (pulse e) = (if 5 < k e \<and> k e < 10 then 1 else 0.21)"
  "quc (pulse e) = (if 5 < k e \<and> k e < 10 then 1 else 0.21)"
  by (simp_all add: pulse_def Let_def)

lemma pulse_observed [simp]:
  "parameters (pulse e) = parameters e" "state (pulse e) = state e"
  by (simp_all add: parameters_def state_def)

lemma exp2_prefix_0: "exp2_prefix e 0 = \<lparr>raised = None, ns = exp2_init e, calls = []\<rparr>"
  by (simp add: exp2_prefix_def)

lemma exp2_prefix_Suc:
  "exp2_prefix e (Suc j) =
     (if raised (exp2_prefix e j) = None then exp2_body (int j) (exp2_prefix e j)
      else exp2_prefix e j)"
  by (simp add: exp2_prefix_def for_loop_append Let_def)

lemma experiment2_prefix: "experiment2 e = exp2_prefix e (nat (tsteps e))"
  by (simp add: experiment2_def exp2_prefix_def range0_def exp2_init_def)

lemma exp2_body_unbound:
  "singlesegment (ns r) = None \<Longrightarrow>
   exp2_body i r = r\<lparr>raised := Some (NameError ''singlesegment''), ns := pulse ((ns r)\<lparr>k := i\<rparr>)\<rparr>"
  by (simp add: exp2_body_def Let_def)

lemma exp2_body_raise:
  "singlesegment (ns r) = Some f \<Longrightarrow> f (keyword_args (pulse ((ns r)\<lparr>k := i\<rparr>))) = Inl err \<Longrightarrow>
   exp2_body i r =
     \<lparr>raised = Some err, ns = pulse ((ns r)\<lparr>k := i\<rparr>),
        calls = calls r @ [keyword_args (pulse ((ns r)\<lparr>k := i\<rparr>))]\<rparr>"
  by (simp add: exp2_body_def Let_def)

lemma exp2_body_return:
  "singlesegment (ns r) = Some f \<Longrightarrow> f (keyword_args (pulse ((ns r)\<lparr>k := i\<rparr>))) = Inr (a, b, c) \<Longrightarrow>
   exp2_body i r =
     \<lparr>raised = None,
      ns = (pulse ((ns r)\<lparr>k := i\<rparr>))\<lparr>qdc := a, velc := b, depthc := c,
                 q_result := q_result (ns r) @ [a],
                 t_result := t_result (ns r) @ [i * dt (ns r)],
                 qus := qus (ns r) @ [quc (pulse ((ns r)\<lparr>k := i\<rparr>))],
                 qdp := a, depthp := c, velp := b\<rparr>,
      calls = calls r @ [keyword_args (pulse ((ns r)\<lparr>k := i\<rparr>))]\<rparr>"
  by (simp add: exp2_body_def Let_def)

lemma exp2_body_cases:
  obtains
    (unbound) "singlesegment (ns r) = None"
      "exp2_body i r = r\<lparr>raised := Some (NameError ''singlesegment''), ns := pulse ((ns r)\<lparr>k := i\<rparr>)\<rparr>"
  | (raise) f err where "singlesegment (ns r) = Some f" "f (keyword_args (pulse ((ns r)\<lparr>k := i\<rparr>))) = Inl err"
      "exp2_body i r =
        \<lparr>raised = Some err, ns = pulse ((ns r)\<lparr>k := i\<rparr>),
        calls = calls r @ [keyword_args (pulse ((ns r)\<lparr>k := i\<rparr>))]\<rparr>"
  | (return) f a b c where "singlesegment (ns r) = Some f"
      "f (keyword_args (pulse ((ns r)\<lparr>k := i\<rparr>))) = Inr (a, b, c)"
      "exp2_body i r =
        \<lparr>raised = None,
         ns = (pulse ((ns r)\<lparr>k := i\<rparr>))\<lparr>qdc := a, velc := b, depthc := c,
                 q_result := q_result (ns r) @ [a],
                 t_result := t_result (ns r) @ [i * dt (ns r)],
                 qus := qus (ns r) @ [quc (pulse ((ns r)\<lparr>k := i\<rparr>))],
                 qdp := a, depthp := c, velp := b\<rparr>,
         calls = calls r @ [keyword_args (pulse ((ns r)\<lparr>k := i\<rparr>))]\<rparr>"
proof (cases "singlesegment (ns r)")
  case None
  then show ?thesis using unbound exp2_body_unbound by blast
next
  case (Some f)
  show ?thesis
  proof (cases "f (keyword_args (pulse ((ns r)\<lparr>k := i\<rparr>)))")
    case (Inl err)
    with Some show ?thesis using raise exp2_body_raise by blast
  next
    case (Inr t)
    obtain a b c where "t = (a, b, c)" by (cases t) auto
    with Some Inr show ?thesis using return exp2_body_return by blast
  qed
qed

lemma exp2_body_frame:
  "parameters (ns (exp2_body i r)) = parameters (ns r) \<and>
   tsteps (ns (exp2_body i r)) = tsteps (ns r) \<and>
   singlesegment (ns (exp2_body i r)) = singlesegment (ns r) \<and>
   qlat (ns (exp2_body i r)) = qlat (ns r)"
  by (rule exp2_body_cases [of r i]) (simp_all add: parameters_def)

lemma exp2_prefix_frame:
  "parameters (ns (exp2_prefix e j)) = parameters e \<and>
   tsteps (ns (exp2_prefix e j)) = tsteps e \<and>
   singlesegment (ns (exp2_prefix e j)) = singlesegment e \<and>
   qlat (ns (exp2_prefix e j)) = 0"
proof (induction j)
  case 0
  show ?case by (simp add: exp2_prefix_0 exp2_init_def parameters_def)
next
  case (Suc j)
  then show ?case by (simp add: exp2_prefix_Suc exp2_body_frame)
qed

lemma exp2_body_flows_equal:
  "qup (ns r) = quc (ns r) \<Longrightarrow> qup (ns (exp2_body i r)) = quc (ns (exp2_body i r))"
  by (rule exp2_body_cases [of r i]) (simp_all add: pulse_flow)

lemma exp2_prefix_flows_equal: "qup (ns (exp2_prefix e j)) = quc (ns (exp2_prefix e j))"
proof (induction j)
  case 0
  show ?case by (simp add: exp2_prefix_0 exp2_init_def)
next
  case (Suc j)
  then show ?case by (simp add: exp2_prefix_Suc exp2_body_flows_equal)
qed

lemma exp2_prefix_raised_Suc:
  "raised (exp2_prefix e (Suc j)) = None \<Longrightarrow> raised (exp2_prefix e j) = None"
  by (simp add: exp2_prefix_Suc split: if_splits)

lemma keyword_args_pulse:
  "arg_parameters (keyword_args (pulse e)) = parameters e"
  "arg_state (keyword_args (pulse e)) = state e"
  "arg_qlat (keyword_args (pulse e)) = qlat e"
  "arg_qup (keyword_args (pulse e)) = (if 5 < k e \<and> k e < 10 then 1 else 0.21)"
  "arg_quc (keyword_args (pulse e)) = (if 5 < k e \<and> k e < 10 then 1 else 0.21)"
  using keyword_args_parameters [of "pulse e"] by (simp_all add: pulse_flow)

lemma exp2_body_calls:
  "set (calls (exp2_body i r)) \<subseteq> insert (keyword_args (pulse ((ns r)\<lparr>k := i\<rparr>))) (set (calls r))"
  by (rule exp2_body_cases [of r i]) auto

lemma exp2_prefix_calls:
  "a \<in> set (calls (exp2_prefix e j)) \<Longrightarrow>
   arg_parameters a = parameters e \<and> arg_qlat a = 0 \<and> arg_qup a = arg_quc a"
proof (induction j)
  case 0
  then show ?case by (simp add: exp2_prefix_0)
next
  case (Suc j)
  show ?case
  proof (cases "raised (exp2_prefix e j) = None")
    case True
    with Suc.prems have "a \<in> set (calls (exp2_body (int j) (exp2_prefix e j)))"
      by (simp add: exp2_prefix_Suc)
    with exp2_body_calls [of "int j" "exp2_prefix e j"]
    have "a = keyword_args (pulse ((ns (exp2_prefix e j))\<lparr>k := int j\<rparr>)) \<or>
          a \<in> set (calls (exp2_prefix e j))"
      by auto
    then show ?thesis
      using Suc.IH exp2_prefix_frame [of e j]
      by (auto simp: keyword_args_pulse parameters_def)
  next
    case False
    with Suc show ?thesis by (auto simp: exp2_prefix_Suc)
  qed
qed

lemma exp2_prefix_lengths:
  "length (t_result (ns (exp2_prefix e j))) = length (q_result (ns (exp2_prefix e j))) \<and>
   length (qus (ns (exp2_prefix e j))) = length (q_result (ns (exp2_prefix e j))) \<and>
   (raised (exp2_prefix e j) = None \<longrightarrow>
      length (calls (exp2_prefix e j)) = j \<and> length (q_result (ns (exp2_prefix e j))) = j) \<and>
   (raised (exp2_prefix e j) \<noteq> None \<longrightarrow>
      length (q_result (ns (exp2_prefix e j))) < j \<and>
      length (q_result (ns (exp2_prefix e j))) \<le> length (calls (exp2_prefix e j)) \<and>
      length (calls (exp2_prefix e j)) \<le> Suc (length (q_result (ns (exp2_prefix e j)))))"
proof (induction j)
  case 0
  show ?case by (simp add: exp2_prefix_0 exp2_init_def)
next
  case (Suc j)
  show ?case
  proof (cases "raised (exp2_prefix e j) = None")
    case True
    with Suc show ?thesis
      by (rule_tac exp2_body_cases [of "exp2_prefix e j" "int j"])
         (simp_all add: exp2_prefix_Suc)
  next
    case False
    with Suc show ?thesis by (auto simp: exp2_prefix_Suc)
  qed
qed

lemma exp2_prefix_times:
  "i < length (t_result (ns (exp2_prefix e j))) \<Longrightarrow>
   t_result (ns (exp2_prefix e j)) ! i = int i * dt e"
proof (induction j)
  case 0
  then show ?case by (simp add: exp2_prefix_0 exp2_init_def)
next
  case (Suc j)
  show ?case
  proof (cases "raised (exp2_prefix e j) = None")
    case True
    have len: "length (t_result (ns (exp2_prefix e j))) = j"
      using exp2_prefix_lengths [of e j] True by simp
    have d: "dt (ns (exp2_prefix e j)) = dt e"
      using exp2_prefix_frame [of e j] by (simp add: parameters_def)
    show ?thesis
      using Suc len d True
      by (rule_tac exp2_body_cases [of "exp2_prefix e j" "int j"])
         (auto simp: exp2_prefix_Suc nth_append)
  next
    case False
    with Suc show ?thesis by (auto simp: exp2_prefix_Suc)
  qed
qed

lemma exp2_prefix_pulse_calls:
  "i < length (calls (exp2_prefix e j)) \<Longrightarrow>
   arg_qup (calls (exp2_prefix e j) ! i) = (if 5 < i \<and> i < 10 then 1 else 0.21) \<and>
   arg_quc (calls (exp2_prefix e j) ! i) = (if 5 < i \<and> i < 10 then 1 else 0.21)"
proof (induction j)
  case 0
  then show ?case by (simp add: exp2_prefix_0)
next
  case (Suc j)
  show ?case
  proof (cases "raised (exp2_prefix e j) = None")
    case True
    have len: "length (calls (exp2_prefix e j)) = j"
      using exp2_prefix_lengths [of e j] True by simp
    show ?thesis
      using Suc len True
      by (rule_tac exp2_body_cases [of "exp2_prefix e j" "int j"])
         (auto simp: exp2_prefix_Suc nth_append keyword_args_pulse)
  next
    case False
    with Suc show ?thesis by (auto simp: exp2_prefix_Suc)
  qed
qed

lemma exp2_prefix_pulse_qus:
  "i < length (qus (ns (exp2_prefix e j))) \<Longrightarrow>
   qus (ns (exp2_prefix e j)) ! i = (if 5 < i \<and> i < 10 then 1 else 0.21)"
proof (induction j)
  case 0
  then show ?case by (simp add: exp2_prefix_0 exp2_init_def)
next
  case (Suc j)
  show ?case
  proof (cases "raised (exp2_prefix e j) = None")
    case True
    have len: "length (qus (ns (exp2_prefix e j))) = j"
      using exp2_prefix_lengths [of e j] True by simp
    show ?thesis
      using Suc len True
      by (rule_tac exp2_body_cases [of "exp2_prefix e j" "int j"])
         (auto simp: exp2_prefix_Suc nth_append pulse_flow)
  next
    case False
    with Suc show ?thesis by (auto simp: exp2_prefix_Suc)
  qed
qed

lemma exp2_prefix_flows:
  assumes "singlesegment e = Some f" "i < length (q_result (ns (exp2_prefix e j)))"
  shows "\<exists>v d. f (calls (exp2_prefix e j) ! i) = Inr (q_result (ns (exp2_prefix e j)) ! i, v, d)"
  using assms(2)
proof (induction j)
  case 0
  then show ?case by (simp add: exp2_prefix_0 exp2_init_def)
next
  case (Suc j)
  show ?case
  proof (cases "raised (exp2_prefix e j) = None")
    case True
    have len: "length (q_result (ns (exp2_prefix e j))) = j" "length (calls (exp2_prefix e j)) = j"
      using exp2_prefix_lengths [of e j] True by simp_all
    have f: "singlesegment (ns (exp2_prefix e j)) = Some f"
      using exp2_prefix_frame [of e j] assms(1) by simp
    show ?thesis
      using Suc len f True
      by (rule_tac exp2_body_cases [of "exp2_prefix e j" "int j"])
         (auto simp: exp2_prefix_Suc nth_append)
  next
    case False
    with Suc show ?thesis by (auto simp: exp2_prefix_Suc)
  qed
qed

lemma exp2_prefix_threaded:
  assumes "singlesegment e = Some f"
  shows "threaded f (calls (exp2_prefix e j)) \<and>
         (calls (exp2_prefix e j) \<noteq> [] \<longrightarrow>
            arg_state (hd (calls (exp2_prefix e j))) = (0.21, 0.070, 0.010)) \<and>
         (raised (exp2_prefix e j) = None \<longrightarrow>
            (if calls (exp2_prefix e j) = []
             then state (ns (exp2_prefix e j)) = (0.21, 0.070, 0.010)
             else f (last (calls (exp2_prefix e j))) = Inr (state (ns (exp2_prefix e j)))))"
proof (induction j)
  case 0
  show ?case by (simp add: exp2_prefix_0 exp2_init_def threaded_Nil state_def)
next
  case (Suc j)
  show ?case
  proof (cases "raised (exp2_prefix e j) = None")
    case True
    let ?r = "exp2_prefix e j"
    let ?a = "keyword_args (pulse ((ns ?r)\<lparr>k := int j\<rparr>))"
    have f: "singlesegment (ns ?r) = Some f"
      using exp2_prefix_frame [of e j] assms by simp
    have st: "arg_state ?a = state (ns ?r)"
      by (simp add: keyword_args_pulse state_def)
    have th: "threaded f (calls ?r @ [?a])"
      using Suc True st by (intro threaded_snoc) auto
    have hd: "arg_state (hd (calls ?r @ [?a])) = (0.21, 0.070, 0.010)"
      using Suc True st by (cases "calls ?r") auto
    show ?thesis
      using th hd f True
      by (rule_tac exp2_body_cases [of ?r "int j"])
         (auto simp: exp2_prefix_Suc state_def)
  next
    case False
    with Suc show ?thesis by (auto simp: exp2_prefix_Suc)
  qed
qed

lemma exp2_prefix_unbound:
  assumes "singlesegment e = None"
  shows "calls (exp2_prefix e j) = [] \<and> q_result (ns (exp2_prefix e j)) = [] \<and>
         t_result (ns (exp2_prefix e j)) = [] \<and>
         (0 < j \<longrightarrow> raised (exp2_prefix e j) = Some (NameError ''singlesegment''))"
proof (induction j)
  case 0
  show ?case by (simp add: exp2_prefix_0 exp2_init_def)
next
  case (Suc j)
  have "singlesegment (ns (exp2_prefix e j)) = None"
    using exp2_prefix_frame [of e j] assms by simp
  with Suc show ?case
    by (auto simp: exp2_prefix_Suc exp2_prefix_0 exp2_body_unbound)
qed

lemma exp2_prefix_total:
  assumes "singlesegment e = Some f" "\<And>a. \<exists>t. f a = Inr t"
  shows "raised (exp2_prefix e j) = None"
proof (induction j)
  case 0
  show ?case by (simp add: exp2_prefix_0)
next
  case (Suc j)
  let ?r = "exp2_prefix e j"
  have f: "singlesegment (ns ?r) = Some f"
    using exp2_prefix_frame [of e j] assms(1) by simp
  obtain t where "f (keyword_args (pulse ((ns ?r)\<lparr>k := int j\<rparr>))) = Inr t"
    using assms(2) by blast
  with f Suc show ?case
    by (rule_tac exp2_body_cases [of ?r "int j"]) (auto simp: exp2_prefix_Suc)
qed

lemma exp2_prefix_raised:
  assumes "raised (exp2_prefix e j) = Some err"
  shows "(singlesegment e = None \<and> err = NameError ''singlesegment'' \<and>
            calls (exp2_prefix e j) = []) \<or>
         (\<exists>f. singlesegment e = Some f \<and> calls (exp2_prefix e j) \<noteq> [] \<and>
              f (last (calls (exp2_prefix e j))) = Inl err \<and>
              length (calls (exp2_prefix e j)) = Suc (length (q_result (ns (exp2_prefix e j)))))"
  using assms
proof (induction j)
  case 0
  then show ?case by (simp add: exp2_prefix_0)
next
  case (Suc j)
  show ?case
  proof (cases "raised (exp2_prefix e j) = None")
    case True
    let ?r = "exp2_prefix e j"
    have len: "length (q_result (ns ?r)) = j" "length (calls ?r) = j"
      using exp2_prefix_lengths [of e j] True by simp_all
    have f: "singlesegment e = singlesegment (ns ?r)"
      using exp2_prefix_frame [of e j] by simp
    have c: "singlesegment (ns ?r) = None \<Longrightarrow> calls ?r = []"
      using exp2_prefix_unbound [of e j] f by simp
    show ?thesis
      using Suc.prems len c True
      by (rule_tac exp2_body_cases [of ?r "int j"])
         (auto simp: exp2_prefix_Suc f)
  next
    case False
    with Suc show ?thesis by (auto simp: exp2_prefix_Suc)
  qed
qed

subsection \<open>Runs that differ only in leftovers\<close>

lemma keyword_args_agree:
  assumes "agree e1 e2"
  shows "keyword_args e1 = keyword_args e2"
  using assms by (simp add: agree_def keyword_args_def parameters_def state_def)

lemma agree_k: "agree e1 e2 \<Longrightarrow> agree (e1\<lparr>k := i\<rparr>) (e2\<lparr>k := i\<rparr>)"
  by (simp add: agree_def parameters_def state_def)

lemma exp1_body_agree:
  assumes "calls r1 = calls r2" "agree (ns r1) (ns r2)"
  shows "raised (exp1_body i r1) = raised (exp1_body i r2) \<and>
         calls (exp1_body i r1) = calls (exp1_body i r2) \<and>
         agree (ns (exp1_body i r1)) (ns (exp1_body i r2))"
proof -
  have ka: "keyword_args (ns r1) = keyword_args (ns r2)"
    using assms(2) by (rule keyword_args_agree)
  have ss: "singlesegment (ns r1) = singlesegment (ns r2)"
    using assms(2) by (simp add: agree_def)
  have d: "dt (ns r1) = dt (ns r2)"
    using assms(2) by (simp add: agree_def parameters_def)
  show ?thesis
  proof (rule exp1_body_cases [of r1 i])
    assume u: "singlesegment (ns r1) = None"
      and b: "exp1_body i r1 = r1\<lparr>raised := Some (NameError ''singlesegment''), ns := (ns r1)\<lparr>k := i\<rparr>\<rparr>"
    from u ss have "singlesegment (ns r2) = None" by simp
    then have "exp1_body i r2 = r2\<lparr>raised := Some (NameError ''singlesegment''), ns := (ns r2)\<lparr>k := i\<rparr>\<rparr>"
      by (rule exp1_body_unbound)
    with b assms show ?thesis by (simp add: agree_def parameters_def state_def)
  next
    fix f err
    assume s: "singlesegment (ns r1) = Some f" and c: "f (keyword_args (ns r1)) = Inl err"
      and b: "exp1_body i r1 =
        \<lparr>raised = Some err, ns = (ns r1)\<lparr>k := i\<rparr>, calls = calls r1 @ [keyword_args (ns r1)]\<rparr>"
    from s ss have s2: "singlesegment (ns r2) = Some f" by simp
    from c ka have c2: "f (keyword_args (ns r2)) = Inl err" by simp
    from exp1_body_raise [OF s2 c2, of i] b assms ka show ?thesis
      by (simp add: agree_def parameters_def state_def)
  next
    fix f a b c
    assume s: "singlesegment (ns r1) = Some f" and c: "f (keyword_args (ns r1)) = Inr (a, b, c)"
      and b: "exp1_body i r1 =
        \<lparr>raised = None,
         ns = (ns r1)\<lparr>k := i, qdc := a, velc := b, depthc := c,
                 q_result := q_result (ns r1) @ [a],
                 t_result := t_result (ns r1) @ [i * dt (ns r1)],
                 qdp := a, depthp := c, velp := b\<rparr>,
         calls = calls r1 @ [keyword_args (ns r1)]\<rparr>"
    from s ss have s2: "singlesegment (ns r2) = Some f" by simp
    from c ka have c2: "f (keyword_args (ns r2)) = Inr (a, b, c)" by simp
    from exp1_body_return [OF s2 c2, of i] b assms ka d show ?thesis
      by (simp add: agree_def parameters_def state_def)
  qed
qed

lemma exp1_prefix_agree:
  assumes "parameters e1 = parameters e2" "singlesegment e1 = singlesegment e2"
  shows "raised (exp1_prefix e1 j) = raised (exp1_prefix e2 j) \<and>
         calls (exp1_prefix e1 j) = calls (exp1_prefix e2 j) \<and>
         agree (ns (exp1_prefix e1 j)) (ns (exp1_prefix e2 j))"
proof (induction j)
  case 0
  from assms show ?case
    by (simp add: exp1_prefix_0 exp1_init_def agree_def parameters_def state_def)
next
  case (Suc j)
  then show ?case
    using exp1_body_agree [of "exp1_prefix e1 j" "exp1_prefix e2 j" "int j"]
    by (simp add: exp1_prefix_Suc)
qed

lemma experiment1_agree:
  assumes "parameters e1 = parameters e2" "tsteps e1 = tsteps e2"
    "singlesegment e1 = singlesegment e2"
  shows "outputs (experiment1 e1) = outputs (experiment1 e2)"
  using exp1_prefix_agree [OF assms(1) assms(3), of "nat (tsteps e2)"] assms(2)
  by (simp add: experiment1_prefix outputs_def agree_def)


lemma exp2_body_agree:
  assumes "calls r1 = calls r2" "agree (ns r1) (ns r2)" "qus (ns r1) = qus (ns r2)"
  shows "raised (exp2_body i r1) = raised (exp2_body i r2) \<and>
         calls (exp2_body i r1) = calls (exp2_body i r2) \<and>
         agree (ns (exp2_body i r1)) (ns (exp2_body i r2)) \<and>
         qus (ns (exp2_body i r1)) = qus (ns (exp2_body i r2))"
proof -
  let ?p1 = "pulse ((ns r1)\<lparr>k := i\<rparr>)" and ?p2 = "pulse ((ns r2)\<lparr>k := i\<rparr>)"
  have ag: "agree ?p1 ?p2"
    using assms(2) by (simp add: agree_def pulse_flow parameters_def state_def)
  have ka: "keyword_args ?p1 = keyword_args ?p2"
    using ag by (rule keyword_args_agree)
  have ss: "singlesegment (ns r1) = singlesegment (ns r2)"
    using assms(2) by (simp add: agree_def)
  have d: "dt (ns r1) = dt (ns r2)" "q_result (ns r1) = q_result (ns r2)"
    "t_result (ns r1) = t_result (ns r2)"
    using assms(2) by (simp_all add: agree_def parameters_def)
  have q: "quc ?p1 = quc ?p2" "qup ?p1 = qup ?p2"
    by (simp_all add: pulse_flow)
  show ?thesis
  proof (rule exp2_body_cases [of r1 i])
    assume u: "singlesegment (ns r1) = None"
      and b: "exp2_body i r1 = r1\<lparr>raised := Some (NameError ''singlesegment''), ns := ?p1\<rparr>"
    from u ss have "singlesegment (ns r2) = None" by simp
    then have "exp2_body i r2 = r2\<lparr>raised := Some (NameError ''singlesegment''), ns := ?p2\<rparr>"
      by (rule exp2_body_unbound)
    with b assms ag show ?thesis by simp
  next
    fix f err
    assume s: "singlesegment (ns r1) = Some f" and c: "f (keyword_args ?p1) = Inl err"
      and b: "exp2_body i r1 =
        \<lparr>raised = Some err, ns = ?p1, calls = calls r1 @ [keyword_args ?p1]\<rparr>"
    from s ss have s2: "singlesegment (ns r2) = Some f" by simp
    from c ka have c2: "f (keyword_args ?p2) = Inl err" by simp
    from exp2_body_raise [OF s2 c2] b assms ka ag show ?thesis
      by simp
  next
    fix f a b c
    assume s: "singlesegment (ns r1) = Some f" and c: "f (keyword_args ?p1) = Inr (a, b, c)"
      and b: "exp2_body i r1 =
        \<lparr>raised = None,
         ns = ?p1\<lparr>qdc := a, velc := b, depthc := c,
                 q_result := q_result (ns r1) @ [a],
                 t_result := t_result (ns r1) @ [i * dt (ns r1)],
                 qus := qus (ns r1) @ [quc ?p1],
                 qdp := a, depthp := c, velp := b\<rparr>,
         calls = calls r1 @ [keyword_args ?p1]\<rparr>"
    from s ss have s2: "singlesegment (ns r2) = Some f" by simp
    from c ka have c2: "f (keyword_args ?p2) = Inr (a, b, c)" by simp
    from exp2_body_return [OF s2 c2] b assms(1,3) ka d q ag show ?thesis
      by (simp add: agree_def parameters_def state_def)
  qed
qed

lemma exp2_prefix_agree:
  assumes "parameters e1 = parameters e2" "singlesegment e1 = singlesegment e2"
  shows "raised (exp2_prefix e1 j) = raised (exp2_prefix e2 j) \<and>
         calls (exp2_prefix e1 j) = calls (exp2_prefix e2 j) \<and>
         agree (ns (exp2_prefix e1 j)) (ns (exp2_prefix e2 j)) \<and>
         qus (ns (exp2_prefix e1 j)) = qus (ns (exp2_prefix e2 j))"
proof (induction j)
  case 0
  from assms show ?case
    by (simp add: exp2_prefix_0 exp2_init_def agree_def parameters_def state_def)
next
  case (Suc j)
  then show ?case
    using exp2_body_agree [of "exp2_prefix e1 j" "exp2_prefix e2 j" "int j"]
    by (simp add: exp2_prefix_Suc)
qed

lemma experiment2_agree:
  assumes "parameters e1 = parameters e2" "tsteps e1 = tsteps e2"
    "singlesegment e1 = singlesegment e2"
  shows "outputs (experiment2 e1) = outputs (experiment2 e2) \<and>
         qus (ns (experiment2 e1)) = qus (ns (experiment2 e2))"
  using exp2_prefix_agree [OF assms(1) assms(3), of "nat (tsteps e2)"] assms(2)
  by (simp add: experiment2_prefix outputs_def agree_def)

lemma experiment_frame:
  "parameters (ns (experiment1 e)) = parameters e" "tsteps (ns (experiment1 e)) = tsteps e"
  "singlesegment (ns (experiment1 e)) = singlesegment e"
  "parameters (ns (experiment2 e)) = parameters e" "tsteps (ns (experiment2 e)) = tsteps e"
  "singlesegment (ns (experiment2 e)) = singlesegment e"
  using exp1_prefix_frame [of e "nat (tsteps e)"] exp2_prefix_frame [of e "nat (tsteps e)"]
  by (simp_all add: experiment1_prefix experiment2_prefix)

subsection \<open>Whole runs and the examples\<close>

lemma threadedD:
  "threaded f as \<Longrightarrow> Suc i < length as \<Longrightarrow> f (as ! i) = Inr (arg_state (as ! Suc i))"
  by (simp add: threaded_def)

lemma half_solver_total: "\<exists>t. half_solver a = Inr t"
  unfolding half_solver_def by (rule exI) (rule refl)

lemmas example_defs =
  demo_def demo3_def demo_stale_def invalid_demo_def fresh_def channel_cell_def
  domain_cell_def half_solver_def

lemmas cell_defs =
  experiment1_def experiment2_def exp1_init_def exp2_init_def exp1_body_def exp2_body_def
  range0_def keyword_args_def pulse_def Let_def upt_conv_Cons

lemma experiment_total:
  assumes "singlesegment e = Some f" "\<And>a. \<exists>t. f a = Inr t"
  shows "raised (experiment1 e) = None \<and> length (calls (experiment1 e)) = nat (tsteps e) \<and>
         raised (experiment2 e) = None \<and> length (calls (experiment2 e)) = nat (tsteps e)"
proof -
  have 1: "raised (exp1_prefix e (nat (tsteps e))) = None"
    using assms by (rule exp1_prefix_total)
  have 2: "raised (exp2_prefix e (nat (tsteps e))) = None"
    using assms by (rule exp2_prefix_total)
  show ?thesis
    using 1 2 exp1_prefix_lengths [of e "nat (tsteps e)"] exp2_prefix_lengths [of e "nat (tsteps e)"]
    by (simp add: experiment1_prefix experiment2_prefix)
qed

lemma demo_runs:
  "raised (experiment1 demo) = None" "length (calls (experiment1 demo)) = 60"
  "raised (experiment2 demo) = None" "length (calls (experiment2 demo)) = 60"
proof -
  have s: "singlesegment demo = Some half_solver" and t: "tsteps demo = 60"
    by (simp_all add: example_defs)
  from experiment_total [OF s half_solver_total] t
  show "raised (experiment1 demo) = None" "length (calls (experiment1 demo)) = 60"
    "raised (experiment2 demo) = None" "length (calls (experiment2 demo)) = 60"
    by simp_all
qed

lemma exp1_prefix_called:
  assumes "singlesegment e = Some f" "0 < j"
  shows "calls (exp1_prefix e j) \<noteq> []"
proof (cases "raised (exp1_prefix e j)")
  case None
  then have "length (calls (exp1_prefix e j)) = j"
    using exp1_prefix_lengths [of e j] by simp
  with assms(2) show ?thesis by auto
next
  case (Some err)
  then show ?thesis
    using exp1_prefix_raised [of e j err] assms(1) by auto
qed

lemma exp2_prefix_called:
  assumes "singlesegment e = Some f" "0 < j"
  shows "calls (exp2_prefix e j) \<noteq> []"
proof (cases "raised (exp2_prefix e j)")
  case None
  then have "length (calls (exp2_prefix e j)) = j"
    using exp2_prefix_lengths [of e j] by simp
  with assms(2) show ?thesis by auto
next
  case (Some err)
  then show ?thesis
    using exp2_prefix_raised [of e j err] assms(1) by auto
qed

lemma experiment_called:
  assumes "singlesegment e = Some f" "0 < tsteps e"
  shows "calls (experiment1 e) \<noteq> [] \<and> calls (experiment2 e) \<noteq> []"
  using exp1_prefix_called [OF assms(1), of "nat (tsteps e)"]
    exp2_prefix_called [OF assms(1), of "nat (tsteps e)"] assms(2)
  by (simp add: experiment1_prefix experiment2_prefix)

lemma experiment_lengths:
  "(raised (experiment1 e) = None \<longrightarrow> length (calls (experiment1 e)) = nat (tsteps e)) \<and>
   (raised (experiment2 e) = None \<longrightarrow> length (calls (experiment2 e)) = nat (tsteps e))"
  using exp1_prefix_lengths [of e "nat (tsteps e)"] exp2_prefix_lengths [of e "nat (tsteps e)"]
  by (simp add: experiment1_prefix experiment2_prefix)

subsection \<open>The import cells and runs that raise\<close>

lemma import_cell_ends: "raised (import_cell p e) = None \<and> calls (import_cell p e) = []"
  by (simp add: import_cell_def Let_def split: option.splits)









section \<open>Properties\<close>

subsection \<open>Threading of the state\<close>

text \<open>
  C1. In both experiments the previous-step state \<open>(qdp, velp, depthp)\<close> given to the
  solver at step \<open>k > 0\<close> is exactly the triple \<open>(qdc, velc, depthc)\<close> the solver
  returned at step \<open>k - 1\<close> (the list of calls is threaded), also in a run that an
  exception cut short. With \<open>tsteps > 0\<close> the solver is called, and the first call
  gets the initial conditions the cell sets, \<open>qdp = 0.21\<close>, \<open>velp = 0.070\<close>,
  \<open>depthp = 0.010\<close>. A run that ends normally makes one call per step, \<open>tsteps\<close> in
  all, and leaves in the namespace the triple returned by the last of them.
\<close>

theorem state_threading:
  assumes "singlesegment e = Some f"
  shows "threaded f (calls (experiment1 e)) \<and>
         (0 < tsteps e \<longrightarrow>
            calls (experiment1 e) \<noteq> [] \<and>
            arg_state (hd (calls (experiment1 e))) = (0.21, 0.070, 0.010)) \<and>
         (raised (experiment1 e) = None \<longrightarrow>
            length (calls (experiment1 e)) = nat (tsteps e)) \<and>
         (raised (experiment1 e) = None \<and> 0 < tsteps e \<longrightarrow>
            f (last (calls (experiment1 e))) = Inr (state (ns (experiment1 e)))) \<and>
         threaded f (calls (experiment2 e)) \<and>
         (0 < tsteps e \<longrightarrow>
            calls (experiment2 e) \<noteq> [] \<and>
            arg_state (hd (calls (experiment2 e))) = (0.21, 0.070, 0.010)) \<and>
         (raised (experiment2 e) = None \<longrightarrow>
            length (calls (experiment2 e)) = nat (tsteps e)) \<and>
         (raised (experiment2 e) = None \<and> 0 < tsteps e \<longrightarrow>
            f (last (calls (experiment2 e))) = Inr (state (ns (experiment2 e))))"
  using exp1_prefix_threaded [OF assms, of "nat (tsteps e)"]
    exp2_prefix_threaded [OF assms, of "nat (tsteps e)"]
    experiment_called [OF assms] experiment_lengths [of e]
  by (simp add: experiment1_prefix experiment2_prefix)

theorem state_threading_witness:
  "singlesegment demo3 = Some half_solver \<and> 0 < tsteps demo3 \<and>
   raised (experiment1 demo3) = None \<and> length (calls (experiment1 demo3)) = 3 \<and>
   map arg_state (calls (experiment1 demo3)) =
     [(0.21, 0.070, 0.010), (0.31, 1.070, 2.010), (0.36, 2.070, 4.010)] \<and>
   map half_solver (calls (experiment1 demo3)) =
     [Inr (0.31, 1.070, 2.010), Inr (0.36, 2.070, 4.010), Inr (0.385, 3.070, 6.010)] \<and>
   state (ns (experiment1 demo3)) = (0.385, 3.070, 6.010) \<and>
   threaded half_solver (calls (experiment1 demo3)) \<and>
   raised (experiment2 demo3) = None \<and> length (calls (experiment2 demo3)) = 3 \<and>
   map arg_state (calls (experiment2 demo3)) =
     [(0.21, 0.070, 0.010), (0.21, 1.070, 2.010), (0.21, 2.070, 4.010)] \<and>
   map half_solver (calls (experiment2 demo3)) =
     [Inr (0.21, 1.070, 2.010), Inr (0.21, 2.070, 4.010), Inr (0.21, 3.070, 6.010)] \<and>
   state (ns (experiment2 demo3)) = (0.21, 3.070, 6.010) \<and>
   threaded half_solver (calls (experiment2 demo3))"
  using state_threading [of demo3 half_solver]
  by (simp add: example_defs cell_defs arg_state_def state_def)

subsection \<open>The pulse\<close>

text \<open>
  C2. In experiment 2 with \<open>tsteps = 60\<close>, the upstream flow passed to the solver as
  \<open>qup\<close> and as \<open>quc\<close> at step \<open>i\<close>, and recorded as the \<open>i\<close>-th element of
  \<open>qus\<close>, is 1 for \<open>i\<close> in 6, 7, 8, 9 and 0.21 for every other \<open>i\<close> below 60. A run
  that ends normally makes 60 calls and records 60 values; in a run cut short the
  steps that were made obey the same rule.
\<close>

theorem pulse_exact_scenario:
  assumes "tsteps e = 60"
  shows "(raised (experiment2 e) = None \<longrightarrow>
            length (calls (experiment2 e)) = 60 \<and> length (qus (ns (experiment2 e))) = 60) \<and>
         (i < length (calls (experiment2 e)) \<longrightarrow>
            arg_qup (calls (experiment2 e) ! i) = (if i \<in> {6, 7, 8, 9} then 1 else 0.21) \<and>
            arg_quc (calls (experiment2 e) ! i) = (if i \<in> {6, 7, 8, 9} then 1 else 0.21)) \<and>
         (i < length (qus (ns (experiment2 e))) \<longrightarrow>
            qus (ns (experiment2 e)) ! i = (if i \<in> {6, 7, 8, 9} then 1 else 0.21))"
proof -
  have len: "raised (exp2_prefix e 60) = None \<Longrightarrow>
      length (calls (exp2_prefix e 60)) = 60 \<and> length (qus (ns (exp2_prefix e 60))) = 60"
    using exp2_prefix_lengths [of e 60] by simp
  have w: "(5 < i \<and> i < 10) = (i \<in> {6, 7, 8, 9})"
    by auto
  have x: "experiment2 e = exp2_prefix e 60"
    using assms by (simp add: experiment2_prefix)
  show ?thesis
    using len exp2_prefix_pulse_calls [of i e 60] exp2_prefix_pulse_qus [of i e 60]
    by (simp only: x w) simp
qed

theorem pulse_exact_scenario_witness:
  "tsteps demo = 60 \<and> raised (experiment2 demo) = None \<and>
   length (calls (experiment2 demo)) = 60 \<and> length (qus (ns (experiment2 demo))) = 60 \<and>
   map (\<lambda>i. qus (ns (experiment2 demo)) ! i) [0, 5, 6, 7, 8, 9, 10, 59] =
     [0.21, 0.21, 1, 1, 1, 1, 0.21, 0.21] \<and>
   map (\<lambda>i. arg_quc (calls (experiment2 demo) ! i)) [0, 5, 6, 7, 8, 9, 10, 59] =
     [0.21, 0.21, 1, 1, 1, 1, 0.21, 0.21] \<and>
   map (\<lambda>i. arg_qup (calls (experiment2 demo) ! i)) [0, 5, 6, 7, 8, 9, 10, 59] =
     [0.21, 0.21, 1, 1, 1, 1, 0.21, 0.21]"
proof -
  have t: "tsteps demo = 60"
    by (simp add: example_defs)
  note p = pulse_exact_scenario [OF t]
  show ?thesis
    using t demo_runs(3) p [of 0] p [of 5] p [of 6] p [of 7] p [of 8] p [of 9] p [of 10] p [of 59]
    by simp
qed

subsection \<open>When the solver cannot be loaded\<close>



subsection \<open>No check of the parameters\<close>

text \<open>
  C4, as the claim states it, fails: with the floodplain narrower than the bankfull
  channel, a negative timestep and a segment of length zero, both experiments run all
  their steps and hand these very parameters to the solver at each of them.
\<close>

theorem boundary_rejection_counterexample:
  "twcc invalid_demo < tw invalid_demo \<and> dt invalid_demo \<le> 0 \<and> dx invalid_demo \<le> 0 \<and>
   raised (experiment1 invalid_demo) = None \<and>
   map arg_parameters (calls (experiment1 invalid_demo)) =
     [parameters invalid_demo, parameters invalid_demo] \<and>
   q_result (ns (experiment1 invalid_demo)) = [0.31, 0.36] \<and>
   t_result (ns (experiment1 invalid_demo)) = [0, - 600] \<and>
   raised (experiment2 invalid_demo) = None \<and>
   map arg_parameters (calls (experiment2 invalid_demo)) =
     [parameters invalid_demo, parameters invalid_demo]"
  by (simp add: example_defs cell_defs arg_parameters_def parameters_def)

text \<open>
  C4, amended. The notebook checks none of its parameters. Whatever their values, when
  \<open>singlesegment\<close> is bound to a solver that always returns, each experiment ends
  normally after calling the solver once per step, \<open>tsteps\<close> times (none when
  \<open>tsteps \<le> 0\<close>), and every call carries the parameters as the namespace has them.
\<close>

theorem no_parameter_validation:
  assumes "singlesegment e = Some f" "\<And>a. \<exists>t. f a = Inr t"
  shows "raised (experiment1 e) = None \<and> length (calls (experiment1 e)) = nat (tsteps e) \<and>
         (\<forall>a \<in> set (calls (experiment1 e)). arg_parameters a = parameters e) \<and>
         raised (experiment2 e) = None \<and> length (calls (experiment2 e)) = nat (tsteps e) \<and>
         (\<forall>a \<in> set (calls (experiment2 e)). arg_parameters a = parameters e)"
  using experiment_total [OF assms] exp1_prefix_calls [of _ e "nat (tsteps e)"]
    exp2_prefix_calls [of _ e "nat (tsteps e)"]
  by (simp add: experiment1_prefix experiment2_prefix)

theorem no_parameter_validation_witness:
  "singlesegment invalid_demo = Some half_solver \<and> (\<forall>a. \<exists>t. half_solver a = Inr t) \<and>
   twcc invalid_demo < tw invalid_demo \<and> dt invalid_demo \<le> 0 \<and> dx invalid_demo \<le> 0 \<and>
   raised (experiment1 invalid_demo) = None \<and> length (calls (experiment1 invalid_demo)) = 2 \<and>
   arg_parameters (hd (calls (experiment1 invalid_demo))) = parameters invalid_demo \<and>
   raised (experiment2 invalid_demo) = None \<and> length (calls (experiment2 invalid_demo)) = 2 \<and>
   arg_parameters (hd (calls (experiment2 invalid_demo))) = parameters invalid_demo"
proof -
  have s: "singlesegment invalid_demo = Some half_solver"
    by (simp add: example_defs)
  have v: "twcc invalid_demo < tw invalid_demo" "dt invalid_demo \<le> 0" "dx invalid_demo \<le> 0"
    "nat (tsteps invalid_demo) = 2"
    by (simp_all add: example_defs)
  note n = no_parameter_validation [OF s half_solver_total]
  have 1: "hd (calls (experiment1 invalid_demo)) \<in> set (calls (experiment1 invalid_demo))"
    using n v(4) by (intro hd_in_set) auto
  have 2: "hd (calls (experiment2 invalid_demo)) \<in> set (calls (experiment2 invalid_demo))"
    using n v(4) by (intro hd_in_set) auto
  show ?thesis
    using s v n 1 2 half_solver_total by simp
qed

subsection \<open>The same run twice\<close>

text \<open>
  C5. The solver is a function of its arguments. Then what an experiment cell
  produces (how it ends, the calls it makes, \<open>q_result\<close>, \<open>t_result\<close>, and \<open>qus\<close>
  for experiment 2) depends on the namespace only through the parameters, \<open>tsteps\<close>
  and the binding of \<open>singlesegment\<close>: two namespaces that agree on these give the
  same outputs, whatever else they hold. So a cell run again, after itself or after
  the other experiment, gives the same outputs again.
\<close>

theorem run_determinism:
  assumes "parameters e1 = parameters e2" "tsteps e1 = tsteps e2"
    "singlesegment e1 = singlesegment e2"
  shows "outputs (experiment1 e1) = outputs (experiment1 e2) \<and>
         outputs (experiment2 e1) = outputs (experiment2 e2) \<and>
         qus (ns (experiment2 e1)) = qus (ns (experiment2 e2)) \<and>
         outputs (experiment1 (ns (experiment1 e1))) = outputs (experiment1 e1) \<and>
         outputs (experiment1 (ns (experiment2 e1))) = outputs (experiment1 e1) \<and>
         outputs (experiment2 (ns (experiment2 e1))) = outputs (experiment2 e1) \<and>
         outputs (experiment2 (ns (experiment1 e1))) = outputs (experiment2 e1) \<and>
         qus (ns (experiment2 (ns (experiment2 e1)))) = qus (ns (experiment2 e1))"
proof -
  note again1 = experiment1_agree [OF experiment_frame(1-3)]
    and after2 = experiment1_agree [OF experiment_frame(4-6)]
    and again2 = experiment2_agree [OF experiment_frame(4-6)]
    and after1 = experiment2_agree [OF experiment_frame(1-3)]
  show ?thesis
    using experiment1_agree [OF assms] experiment2_agree [OF assms]
      again1 [of e1] after2 [of e1] again2 [of e1] after1 [of e1]
    by simp
qed

theorem run_determinism_witness:
  "parameters demo3 = parameters demo_stale \<and>
   tsteps demo3 = tsteps demo_stale \<and>
   singlesegment demo3 = singlesegment demo_stale \<and>
   q_result demo3 = [] \<and> q_result demo_stale = [1, 2, 3] \<and>
   qdp demo3 = 0 \<and> qdp demo_stale = 9 \<and>
   outputs (experiment1 demo_stale) = outputs (experiment1 demo3) \<and>
   q_result (ns (experiment1 demo_stale)) = [0.31, 0.36, 0.385] \<and>
   outputs (experiment2 demo_stale) = outputs (experiment2 demo3) \<and>
   qus (ns (experiment2 demo_stale)) = [0.21, 0.21, 0.21] \<and>
   outputs (experiment1 (ns (experiment1 demo3))) = outputs (experiment1 demo3)"
proof -
  have h: "parameters demo3 = parameters demo_stale"
    "tsteps demo3 = tsteps demo_stale"
    "singlesegment demo3 = singlesegment demo_stale"
    by (simp_all add: example_defs parameters_def)
  have v: "q_result demo3 = []" "q_result demo_stale = [1, 2, 3]"
    "qdp demo3 = 0" "qdp demo_stale = 9"
    by (simp_all add: example_defs)
  have q: "q_result (ns (experiment1 demo_stale)) = [0.31, 0.36, 0.385]"
    "qus (ns (experiment2 demo_stale)) = [0.21, 0.21, 0.21]"
    by (simp_all add: example_defs cell_defs)
  show ?thesis
    using h v q run_determinism [OF h] by simp
qed

subsection \<open>A run of no steps\<close>

text \<open>
  C6. With \<open>tsteps = 0\<close> either experiment ends normally with \<open>q_result\<close> and
  \<open>t_result\<close> empty and without a single call of the solver, whatever the namespace
  holds otherwise (even when \<open>singlesegment\<close> is unbound).
\<close>

theorem zero_step_run:
  assumes "tsteps e = 0"
  shows "raised (experiment1 e) = None \<and> calls (experiment1 e) = []
       \<and> q_result (ns (experiment1 e)) = [] \<and> t_result (ns (experiment1 e)) = []
       \<and> raised (experiment2 e) = None \<and> calls (experiment2 e) = []
       \<and> q_result (ns (experiment2 e)) = [] \<and> t_result (ns (experiment2 e)) = []"
  using assms
  by (simp add: experiment1_def experiment2_def exp1_init_def exp2_init_def range0_def)

theorem zero_step_run_witness:
  "tsteps (demo\<lparr>tsteps := 0\<rparr>) = 0 \<and>
   outputs (experiment1 (demo\<lparr>tsteps := 0\<rparr>)) = (None, [], [], []) \<and>
   outputs (experiment2 (demo\<lparr>tsteps := 0\<rparr>)) = (None, [], [], [])"
  using zero_step_run [of "demo\<lparr>tsteps := 0\<rparr>"]
  by (simp add: outputs_def)

subsection \<open>The result series\<close>

text \<open>
  C7. After a run that ended normally, \<open>q_result\<close> and \<open>t_result\<close> have one entry per
  step; for every step \<open>i\<close> below \<open>tsteps\<close> the \<open>i\<close>-th elapsed time is \<open>i * dt\<close> and the
  \<open>i\<close>-th flow is the downstream flow the solver returned at step \<open>i\<close>.
\<close>

theorem result_series:
  assumes "singlesegment e = Some f" "i < nat (tsteps e)"
  shows "(raised (experiment1 e) = None \<longrightarrow>
            length (q_result (ns (experiment1 e))) = nat (tsteps e) \<and>
            length (t_result (ns (experiment1 e))) = nat (tsteps e) \<and>
            t_result (ns (experiment1 e)) ! i = int i * dt e \<and>
            (\<exists>v d. f (calls (experiment1 e) ! i) = Inr (q_result (ns (experiment1 e)) ! i, v, d))) \<and>
         (raised (experiment2 e) = None \<longrightarrow>
            length (q_result (ns (experiment2 e))) = nat (tsteps e) \<and>
            length (t_result (ns (experiment2 e))) = nat (tsteps e) \<and>
            t_result (ns (experiment2 e)) ! i = int i * dt e \<and>
            (\<exists>v d. f (calls (experiment2 e) ! i) = Inr (q_result (ns (experiment2 e)) ! i, v, d)))"
proof (intro conjI impI)
  assume r: "raised (experiment1 e) = None"
  then have len: "length (q_result (ns (experiment1 e))) = nat (tsteps e)"
    "length (t_result (ns (experiment1 e))) = nat (tsteps e)"
    using exp1_prefix_lengths [of e "nat (tsteps e)"] by (simp_all add: experiment1_prefix)
  show "length (q_result (ns (experiment1 e))) = nat (tsteps e)"
    "length (t_result (ns (experiment1 e))) = nat (tsteps e)"
    by (rule len)+
  show "t_result (ns (experiment1 e)) ! i = int i * dt e"
    using exp1_prefix_times [of i e "nat (tsteps e)"] len assms(2)
    by (simp add: experiment1_prefix)
  show "\<exists>v d. f (calls (experiment1 e) ! i) = Inr (q_result (ns (experiment1 e)) ! i, v, d)"
    using exp1_prefix_flows [OF assms(1), of i "nat (tsteps e)"] len assms(2)
    by (simp add: experiment1_prefix)
next
  assume r: "raised (experiment2 e) = None"
  then have len: "length (q_result (ns (experiment2 e))) = nat (tsteps e)"
    "length (t_result (ns (experiment2 e))) = nat (tsteps e)"
    using exp2_prefix_lengths [of e "nat (tsteps e)"] by (simp_all add: experiment2_prefix)
  show "length (q_result (ns (experiment2 e))) = nat (tsteps e)"
    "length (t_result (ns (experiment2 e))) = nat (tsteps e)"
    by (rule len)+
  show "t_result (ns (experiment2 e)) ! i = int i * dt e"
    using exp2_prefix_times [of i e "nat (tsteps e)"] len assms(2)
    by (simp add: experiment2_prefix)
  show "\<exists>v d. f (calls (experiment2 e) ! i) = Inr (q_result (ns (experiment2 e)) ! i, v, d)"
    using exp2_prefix_flows [OF assms(1), of i "nat (tsteps e)"] len assms(2)
    by (simp add: experiment2_prefix)
qed

theorem result_series_witness:
  "singlesegment demo3 = Some half_solver \<and> (2::nat) < nat (tsteps demo3) \<and>
   outputs (experiment1 demo3) =
     (None, calls (experiment1 demo3), [0.31, 0.36, 0.385], [0, 600, 1200]) \<and>
   outputs (experiment2 demo3) =
     (None, calls (experiment2 demo3), [0.21, 0.21, 0.21], [0, 600, 1200]) \<and>
   half_solver (calls (experiment1 demo3) ! 2) = Inr (0.385, 3.070, 6.010) \<and>
   half_solver (calls (experiment2 demo3) ! 2) = Inr (0.21, 3.070, 6.010)"
  using result_series [of demo3 half_solver 2]
  by (simp add: example_defs cell_defs outputs_def)

subsection \<open>The parameters stay as they are\<close>

text \<open>
  C8. The loops never assign to \<open>bw\<close>, \<open>tw\<close>, \<open>twcc\<close>, \<open>cs\<close>, \<open>n_manning\<close>,
  \<open>n_manning_cc\<close>, \<open>s0\<close>, \<open>dx\<close> or \<open>dt\<close>: after any number of passes of either loop,
  and after either whole cell, they have the values they had before.
\<close>

theorem parameters_frame:
  "parameters (ns (exp1_prefix e j)) = parameters e \<and>
   parameters (ns (exp2_prefix e j)) = parameters e \<and>
   parameters (ns (experiment1 e)) = parameters e \<and>
   parameters (ns (experiment2 e)) = parameters e"
  using exp1_prefix_frame [of e j] exp2_prefix_frame [of e j] experiment_frame [of e]
  by simp

subsection \<open>Previous and current upstream flow\<close>

text \<open>
  C10. Every call of the solver made by either experiment has \<open>qup = quc\<close>: the two are
  assigned the same value together, before each loop and in every branch of the pulse.
\<close>

theorem upstream_flows_equal:
  "(\<forall>a \<in> set (calls (experiment1 e)). arg_qup a = arg_quc a) \<and>
   (\<forall>a \<in> set (calls (experiment2 e)). arg_qup a = arg_quc a) \<and>
   qup (exp1_init e) = quc (exp1_init e) \<and> qup (exp2_init e) = quc (exp2_init e) \<and>
   qup (pulse e) = quc (pulse e)"
proof (intro conjI ballI)
  fix a
  assume "a \<in> set (calls (experiment1 e))"
  then have "arg_qup a = 0.41" "arg_quc a = 0.41"
    using exp1_prefix_calls [of a e "nat (tsteps e)"] by (simp_all only: experiment1_prefix)
  then show "arg_qup a = arg_quc a" by (simp only:)
next
  fix a
  assume "a \<in> set (calls (experiment2 e))"
  then show "arg_qup a = arg_quc a"
    using exp2_prefix_calls [of a e "nat (tsteps e)"] by (simp only: experiment2_prefix)
qed (simp_all add: exp1_init_def exp2_init_def pulse_flow)

theorem upstream_flows_equal_witness:
  "calls (experiment1 demo) ! 7 \<in> set (calls (experiment1 demo)) \<and>
   calls (experiment2 demo) ! 7 \<in> set (calls (experiment2 demo)) \<and>
   arg_qup (calls (experiment1 demo) ! 7) = arg_quc (calls (experiment1 demo) ! 7) \<and>
   arg_qup (calls (experiment2 demo) ! 7) = arg_quc (calls (experiment2 demo) ! 7)"
proof -
  have 1: "calls (experiment1 demo) ! 7 \<in> set (calls (experiment1 demo))"
    by (rule nth_mem) (simp add: demo_runs)
  have 2: "calls (experiment2 demo) ! 7 \<in> set (calls (experiment2 demo))"
    by (rule nth_mem) (simp add: demo_runs)
  show ?thesis
    using 1 2 upstream_flows_equal [of demo] by simp
qed


end
